theory Spec2Isabelle
  imports Main
begin

section \<open>Strings: the library calls of smtpd.go\<close>

text \<open>
  A Go string is a sequence of bytes, here a \<^typ>\<open>string\<close> (a list of 8-bit characters).
  The functions of this section stand for the calls that \<^verbatim>\<open>smtpd/smtpd.go\<close> makes into
  Go's standard library (\<^verbatim>\<open>strings\<close>, \<^verbatim>\<open>unicode\<close>, \<^verbatim>\<open>strconv\<close>, \<^verbatim>\<open>fmt\<close>,
  \<^verbatim>\<open>regexp\<close>, \<^verbatim>\<open>bufio\<close>); they follow the documented behaviour of that library.
\<close>

abbreviation CR :: char where "CR \<equiv> CHR 0x0D"
abbreviation LF :: char where "LF \<equiv> CHR 0x0A"
abbreviation BSL :: char where "BSL \<equiv> CHR 0x5C"

definition CRLF :: string where
  "CRLF = [CR, LF]"

text \<open>\<^verbatim>\<open>strings.Index(s, sep)\<close> for a one-byte \<open>sep\<close>: the first index, \<open>None\<close> for -1.\<close>

fun IndexByte :: "string \<Rightarrow> char \<Rightarrow> nat option" where
  "IndexByte [] c = None"
| "IndexByte (x # xs) c =
     (if x = c then Some 0 else map_option Suc (IndexByte xs c))"

definition LastIndexByte :: "string \<Rightarrow> char \<Rightarrow> nat option" where
  "LastIndexByte s c =
     (case IndexByte (rev s) c of None \<Rightarrow> None | Some k \<Rightarrow> Some (length s - 1 - k))"

definition HasSuffix :: "string \<Rightarrow> string \<Rightarrow> bool" where
  "HasSuffix s suf = (length suf \<le> length s \<and> drop (length s - length suf) s = suf)"

definition HasPrefix :: "string \<Rightarrow> string \<Rightarrow> bool" where
  "HasPrefix s pre = (take (length pre) s = pre)"

text \<open>
  Case mapping. On ASCII bytes this is what \<^verbatim>\<open>strings.ToUpper\<close> and
  \<^verbatim>\<open>strings.ToLower\<close> compute; bytes from 0x80 on are kept as they are (Go maps
  the letters beyond ASCII through its Unicode tables, which are not part of this model).
\<close>

definition upperByte :: "char \<Rightarrow> char" where
  "upperByte c =
     (let n = (of_char c :: nat) in if 97 \<le> n \<and> n \<le> 122 then char_of (n - 32) else c)"


definition ToUpper :: "string \<Rightarrow> string" where
  "ToUpper s = map upperByte s"


text \<open>
  \<^verbatim>\<open>unicode.IsSpace\<close>, on UTF-8: the encodings of the code points with the property
  White_Space (U+0009 to U+000D, U+0020, U+0085, U+00A0, U+1680, U+2000 to U+200A, U+2028,
  U+2029, U+202F, U+205F, U+3000). A string's last (first) rune is a space exactly when
  one of these byte sequences is a suffix (prefix) of it.
\<close>

definition spaceRunes :: "string list" where
  "spaceRunes =
     [[CHR 0x09], [CHR 0x0A], [CHR 0x0B], [CHR 0x0C], [CHR 0x0D], [CHR 0x20],
      [CHR 0xC2, CHR 0x85], [CHR 0xC2, CHR 0xA0], [CHR 0xE1, CHR 0x9A, CHR 0x80],
      [CHR 0xE2, CHR 0x80, CHR 0x80], [CHR 0xE2, CHR 0x80, CHR 0x81],
      [CHR 0xE2, CHR 0x80, CHR 0x82], [CHR 0xE2, CHR 0x80, CHR 0x83],
      [CHR 0xE2, CHR 0x80, CHR 0x84], [CHR 0xE2, CHR 0x80, CHR 0x85],
      [CHR 0xE2, CHR 0x80, CHR 0x86], [CHR 0xE2, CHR 0x80, CHR 0x87],
      [CHR 0xE2, CHR 0x80, CHR 0x88], [CHR 0xE2, CHR 0x80, CHR 0x89],
      [CHR 0xE2, CHR 0x80, CHR 0x8A], [CHR 0xE2, CHR 0x80, CHR 0xA8],
      [CHR 0xE2, CHR 0x80, CHR 0xA9], [CHR 0xE2, CHR 0x80, CHR 0xAF],
      [CHR 0xE2, CHR 0x81, CHR 0x9F], [CHR 0xE3, CHR 0x80, CHR 0x80]]"

text \<open>The width in bytes of the trailing (leading) space rune, 0 when there is none.\<close>

definition trailingSpace :: "string \<Rightarrow> nat" where
  "trailingSpace s = (case find (HasSuffix s) spaceRunes of None \<Rightarrow> 0 | Some q \<Rightarrow> length q)"

definition leadingSpace :: "string \<Rightarrow> nat" where
  "leadingSpace s = (case find (HasPrefix s) spaceRunes of None \<Rightarrow> 0 | Some q \<Rightarrow> length q)"

text \<open>\<^verbatim>\<open>strings.TrimRightFunc(s, unicode.IsSpace)\<close>\<close>

function TrimRightSpace :: "string \<Rightarrow> string" where
  "TrimRightSpace s =
     (if s = [] \<or> trailingSpace s = 0 then s
      else TrimRightSpace (take (length s - trailingSpace s) s))"
  by pat_completeness auto
termination
  by (relation "measure length") auto

declare TrimRightSpace.simps [simp del]

function TrimLeftSpace :: "string \<Rightarrow> string" where
  "TrimLeftSpace s =
     (if s = [] \<or> leadingSpace s = 0 then s
      else TrimLeftSpace (drop (leadingSpace s) s))"
  by pat_completeness auto
termination
  by (relation "measure length") auto

declare TrimLeftSpace.simps [simp del]

text \<open>\<^verbatim>\<open>strings.TrimSpace\<close>\<close>

definition TrimSpace :: "string \<Rightarrow> string" where
  "TrimSpace s = TrimLeftSpace (TrimRightSpace s)"

subsection \<open>Numbers\<close>

definition isDigit :: "char \<Rightarrow> bool" where
  "isDigit c = (let n = (of_char c :: nat) in 48 \<le> n \<and> n \<le> 57)"

definition digitVal :: "char \<Rightarrow> int" where
  "digitVal c = int (of_char c) - 48"

definition digitsVal :: "string \<Rightarrow> int" where
  "digitsVal ds = foldl (\<lambda>n c. n * 10 + digitVal c) 0 ds"

text \<open>The width of Go's \<^verbatim>\<open>int\<close> (\<^verbatim>\<open>strconv.IntSize\<close>), on a 64-bit platform.\<close>

definition intSize :: nat where
  "intSize = 64"

text \<open>
  \<^verbatim>\<open>strconv.Atoi\<close>: an optional sign and at least one decimal digit, and a value that an
  \<^verbatim>\<open>int\<close> holds; \<open>None\<close> is the error return (syntax or range).
\<close>

definition Atoi :: "string \<Rightarrow> int option" where
  "Atoi s =
     (let neg = (s \<noteq> [] \<and> hd s = CHR ''-'');
          ds = (if s \<noteq> [] \<and> (hd s = CHR ''-'' \<or> hd s = CHR ''+'') then tl s else s)
      in if ds = [] \<or> \<not> list_all isDigit ds then None
         else let v = (if neg then - digitsVal ds else digitsVal ds)
              in if - (2 ^ (intSize - 1)) \<le> v \<and> v \<le> 2 ^ (intSize - 1) - 1 then Some v
                 else None)"

text \<open>\<^verbatim>\<open>fmt.Sprintf("%d", n)\<close>\<close>

function showNat :: "nat \<Rightarrow> string" where
  "showNat n =
     (if n < 10 then [''0123456789'' ! n]
      else showNat (n div 10) @ [''0123456789'' ! (n mod 10)])"
  by pat_completeness auto
termination
  by (relation "measure id") auto

declare showNat.simps [simp del]

definition showInt :: "int \<Rightarrow> string" where
  "showInt i = (if i < 0 then CHR ''-'' # showNat (nat (- i)) else showNat (nat i))"

subsection \<open>Errors and panics\<close>

text \<open>
  A Go \<^verbatim>\<open>error\<close> value is either of the package's own type \<^verbatim>\<open>SMTPError\<close> (a string that
  is a complete reply line) or of any other type (\<^verbatim>\<open>errors.New\<close> and the like); a nil
  error is \<open>None\<close> of \<open>error option\<close>. Run-time panics are values of their own.
\<close>

datatype error = SMTPError string | errorString string

fun Error :: "error \<Rightarrow> string" where
  "Error (SMTPError e) = e"
| "Error (errorString e) = e"

datatype panic = SliceBounds | IndexRange | NilOnNewMail

subsection \<open>The buffered reader\<close>

text \<open>
  \<^verbatim>\<open>bufio.Reader.ReadSlice('\n')\<close> over the bytes that the connection has yet to
  deliver: the line up to and with the first \<open>\n\<close> when it fits the buffer (4096 bytes,
  the size \<^verbatim>\<open>bufio.NewReader\<close> gives), else the bytes read and an error: the buffer is
  full, or the input ended (end of file, a closed connection, a deadline).
  The result is the pair of \<^verbatim>\<open>(line, err)\<close> and the input left: after a full buffer
  the next call goes on with the bytes that follow, after the end of the input every
  call fails.
\<close>

definition defaultBufSize :: nat where
  "defaultBufSize = 4096"

definition ErrBufferFull :: error where
  "ErrBufferFull = errorString ''bufio: buffer full''"

definition EOF :: error where
  "EOF = errorString ''EOF''"

definition ReadSlice :: "string \<Rightarrow> (string \<times> error option) \<times> string" where
  "ReadSlice inp =
     (case IndexByte (take defaultBufSize inp) LF of
        Some i \<Rightarrow> ((take (i + 1) inp, None), drop (i + 1) inp)
      | None \<Rightarrow>
          if defaultBufSize \<le> length inp
          then ((take defaultBufSize inp, Some ErrBufferFull), drop defaultBufSize inp)
          else ((inp, Some EOF), []))"

subsection \<open>The three regular expressions\<close>

text \<open>
  \<^verbatim>\<open>rcptToRE   = regexp.MustCompile(`^[Tt][Oo]:<(.+)>`)\<close>
  \<^verbatim>\<open>mailFromRE = regexp.MustCompile(`^[Ff][Rr][Oo][Mm]:<([^>]*)>(.*)$`)\<close>
  \<^verbatim>\<open>mailSizeRE = regexp.MustCompile(`[Ss][Ii][Zz][Ee]=(\d+)`)\<close>

  Each function is \<^verbatim>\<open>FindStringSubmatch\<close> of one expression and returns the captured
  groups, \<open>None\<close> when the expression does not match. In Go a dot matches every character
  but \<open>\n\<close>, a negated class matches \<open>\n\<close> too, \<open>$\<close> is the end of the text, \<open>\d\<close> is
  an ASCII digit, and repetition is greedy.
\<close>

definition mailFromRE :: "string \<Rightarrow> (string \<times> string) option" where
  "mailFromRE arg =
     (if ToUpper (take 4 arg) = ''FROM'' \<and> take 2 (drop 4 arg) = '':<'' then
        (let rest = drop 6 arg in
         case IndexByte rest (CHR ''>'') of
           None \<Rightarrow> None
         | Some j \<Rightarrow>
             (let params = drop (j + 1) rest in
              if LF \<in> set params then None else Some (take j rest, params)))
      else None)"

definition rcptToRE :: "string \<Rightarrow> string option" where
  "rcptToRE arg =
     (if ToUpper (take 2 arg) = ''TO'' \<and> take 2 (drop 2 arg) = '':<'' then
        (let body = takeWhile (\<lambda>c. c \<noteq> LF) (drop 4 arg) in
         case LastIndexByte (drop 1 body) (CHR ''>'') of
           None \<Rightarrow> None
         | Some j \<Rightarrow> Some (take (j + 1) body))
      else None)"

fun mailSizeRE :: "string \<Rightarrow> string option" where
  "mailSizeRE [] = None"
| "mailSizeRE (c # cs) =
     (let digits = takeWhile isDigit (drop 5 (c # cs)) in
      if ToUpper (take 5 (c # cs)) = ''SIZE='' \<and> digits \<noteq> [] then Some digits
      else mailSizeRE cs)"

section \<open>Command lines\<close>

text \<open>
  \<^verbatim>\<open>type cmdLine string\<close>. A slice expression out of range panics in Go, so \<open>Verb\<close> and
  \<open>Arg\<close> return a panic or a string.
  \<^verbatim>\<open>
  func (cl cmdLine) Verb() string {
      s := string(cl)
      if idx := strings.Index(s, " "); idx != -1 {
          return strings.ToUpper(s[:idx])
      }
      return strings.ToUpper(s[:len(s)-2])
  }
  func (cl cmdLine) Arg() string {
      s := string(cl)
      if idx := strings.Index(s, " "); idx != -1 {
          return strings.TrimRightFunc(s[idx+1:len(s)-2], unicode.IsSpace)
      }
      return ""
  }\<close>
\<close>

type_synonym cmdLine = string

definition Verb :: "cmdLine \<Rightarrow> panic + string" where
  "Verb cl =
     (case IndexByte cl (CHR '' '') of
        Some idx \<Rightarrow> Inr (ToUpper (take idx cl))
      | None \<Rightarrow>
          if length cl < 2 then Inl SliceBounds
          else Inr (ToUpper (take (length cl - 2) cl)))"

definition Arg :: "cmdLine \<Rightarrow> panic + string" where
  "Arg cl =
     (case IndexByte cl (CHR '' '') of
        Some idx \<Rightarrow>
          if length cl < 2 \<or> length cl - 2 < idx + 1 then Inl SliceBounds
          else Inr (TrimRightSpace (drop (idx + 1) (take (length cl - 2) cl)))
      | None \<Rightarrow> Inr [])"

text \<open>
  \<^verbatim>\<open>
  func (cl cmdLine) checkValid() error {
      if !strings.HasSuffix(string(cl), "\r\n") {
          return errors.New(`line doesn't end in \r\n`)
      }
      switch cl.Verb() {
      case "RSET", "DATA", "QUIT":
          if cl.Arg() != "" {
              return errors.New("unexpected argument")
          }
      }
      return nil
  }\<close>
  The first message is a raw string literal: it ends in the four characters
  backslash, r, backslash, n.
\<close>

definition errNoCRLF :: error where
  "errNoCRLF = errorString (''line doesn't end in '' @ [BSL, CHR ''r'', BSL, CHR ''n''])"

definition checkValid :: "cmdLine \<Rightarrow> panic + error option" where
  "checkValid cl =
     (if \<not> HasSuffix cl CRLF then Inr (Some errNoCRLF)
      else
        (case Verb cl of
           Inl p \<Rightarrow> Inl p
         | Inr v \<Rightarrow>
             if v = ''RSET'' \<or> v = ''DATA'' \<or> v = ''QUIT'' then
               (case Arg cl of
                  Inl p \<Rightarrow> Inl p
                | Inr a \<Rightarrow> if a \<noteq> [] then Inr (Some (errorString ''unexpected argument''))
                           else Inr None)
             else Inr None))"

section \<open>Mail addresses\<close>

text \<open>
  \<^verbatim>\<open>type addrString string\<close> with its two methods.
  \<^verbatim>\<open>
  func (a addrString) Hostname() string {
      e := string(a)
      if idx := strings.Index(e, "@"); idx != -1 {
          return strings.ToLower(e[idx+1:])
      }
      return ""
  }\<close>
\<close>

type_synonym addrString = string

definition addrString_Email :: "addrString \<Rightarrow> string" where
  "addrString_Email a = a"




section \<open>Server, envelope and session\<close>

text \<open>
  The embedder's code (the envelope's methods and the two hooks) runs on a state of its
  own, the world \<open>'w\<close>, which the session passes through every call. An \<^verbatim>\<open>Envelope\<close>
  interface value is the table of its four methods.
\<close>

record 'w Envelope =
  AddRecipient :: "addrString \<Rightarrow> 'w \<Rightarrow> error option \<times> 'w"
  BeginData :: "'w \<Rightarrow> error option \<times> 'w"
  Write :: "string \<Rightarrow> 'w \<Rightarrow> error option \<times> 'w"
  Close :: "'w \<Rightarrow> error option \<times> 'w"

text \<open>
  \<^verbatim>\<open>tls.Server(s.rwc, s.srv.TLSConfig).Handshake()\<close> as a function of the unread
  input: the error it returns and the number of input bytes it takes. After it the
  input is what the connection delivers to the session (decrypted, if it succeeded).
\<close>

type_synonym tlsConfig = "string \<Rightarrow> error option \<times> nat"

text \<open>
  \<^verbatim>\<open>type Server struct\<close>. The address, the two timeouts and the log function have no
  part in what follows and are left out; \<open>execHostname\<close> is the output of the external
  command \<^verbatim>\<open>hostname\<close> (\<open>None\<close> when it fails). The \<^verbatim>\<open>Connection\<close> that the hooks
  receive is not modelled: a hook does not close the connection itself.
\<close>

record 'w Server =
  Hostname :: string
  PlainAuth :: bool
  TLSConfig :: "tlsConfig option"
  MaxSize :: int
  OnNewConnection :: "('w \<Rightarrow> error option \<times> 'w) option"
  OnNewMail ::
    "(addrString \<Rightarrow> int option \<Rightarrow> 'w \<Rightarrow> ('w Envelope option \<times> error option) \<times> 'w) option"
  execHostname :: "string option"

definition hostname :: "'w Server \<Rightarrow> string" where
  "hostname srv =
     (if Hostname srv \<noteq> [] then Hostname srv
      else (case execHostname srv of None \<Rightarrow> [] | Some out \<Rightarrow> TrimSpace out))"

text \<open>
  What a session does that can be seen from outside, in order: the command lines it
  reads, the bytes it writes to the client, and its calls into the embedder's code with
  what they returned (for \<^verbatim>\<open>OnNewMail\<close>: the address, the size, whether the envelope
  returned is non-nil, and the error).
\<close>

datatype event =
    Cmd string
  | Sent string
  | CallNewConnection "error option"
  | CallNewMail addrString "int option" bool "error option"
  | CallAddRecipient addrString "error option"
  | CallBeginData "error option"
  | CallWrite string "error option"
  | CallClose "error option"

text \<open>
  \<^verbatim>\<open>type session struct\<close>: \<open>br\<close> is the input that the buffered reader has yet to
  deliver, \<open>closed\<close> tells whether \<^verbatim>\<open>rwc\<close> has been closed, \<open>world\<close> is the embedder's
  state and \<open>events\<close> the history. The server \<^verbatim>\<open>srv\<close> is a parameter of each function.
  The read and write deadlines and the log are not modelled.
\<close>

record 'w session =
  env :: "'w Envelope option"
  helloType :: string
  helloHost :: string
  br :: string
  closed :: bool
  world :: 'w
  events :: "event list"

definition newSession :: "string \<Rightarrow> 'w \<Rightarrow> 'w session" where
  "newSession input w =
     \<lparr>env = None, helloType = [], helloHost = [], br = input, closed = False,
      world = w, events = []\<rparr>"

text \<open>
  \<^verbatim>\<open>fmt.Fprintf(s.bw, ...)\<close> followed by \<^verbatim>\<open>s.bw.Flush()\<close>: the bytes reach the client
  unless the connection has been closed (the write fails and its error is dropped).
\<close>

definition sendf :: "string \<Rightarrow> 'w session \<Rightarrow> 'w session" where
  "sendf str s = (if closed s then s else s\<lparr>events := events s @ [Sent str]\<rparr>)"

definition sendlinef :: "string \<Rightarrow> 'w session \<Rightarrow> 'w session" where
  "sendlinef str s = sendf (str @ CRLF) s"

text \<open>
  \<^verbatim>\<open>
  func (s *session) sendSMTPErrorOrLinef(err error, format string, args ...interface{}) {
      if se, ok := err.(SMTPError); ok {
          s.sendlinef("%s", se.Error())
          return
      }
      s.sendlinef(format, args...)
  }\<close>
\<close>

fun sendSMTPErrorOrLinef :: "error \<Rightarrow> string \<Rightarrow> 'w session \<Rightarrow> 'w session" where
  "sendSMTPErrorOrLinef (SMTPError se) str s = sendlinef se s"
| "sendSMTPErrorOrLinef (errorString e) str s = sendlinef str s"

datatype control = Continue | Return | Panicked panic

text \<open>
  \<^verbatim>\<open>handleHello\<close> writes the first line and every extension line to the buffered
  writer and flushes once.
\<close>

definition extensions :: "'w Server \<Rightarrow> string list" where
  "extensions srv =
     (if PlainAuth srv then [''250-AUTH PLAIN''] else [])
     @ (if TLSConfig srv \<noteq> None then [''250-STARTTLS''] else [])
     @ (if MaxSize srv \<noteq> 0 then [''250-SIZE '' @ showInt (MaxSize srv)] else [])
     @ [''250-PIPELINING'', ''250-ENHANCEDSTATUSCODES'', ''250-8BITMIME'', ''250 DSN'']"

definition handleHello :: "'w Server \<Rightarrow> string \<Rightarrow> string \<Rightarrow> 'w session \<Rightarrow> 'w session" where
  "handleHello srv greeting host s =
     foldl (\<lambda>t ext. sendf (ext @ CRLF) t)
       (sendf (''250-'' @ hostname srv @ CRLF) (s\<lparr>helloType := greeting, helloHost := host\<rparr>))
       (extensions srv)"

text \<open>
  \<^verbatim>\<open>handleStartTLS\<close>: the error returned, and the session.
\<close>

definition handleStartTLS :: "tlsConfig \<Rightarrow> 'w session \<Rightarrow> error option \<times> 'w session" where
  "handleStartTLS cfg s =
     (let s1 = sendlinef ''220 Ready to start TLS'' s;
          (err, n) = cfg (br s1);
          s2 = s1\<lparr>br := drop n (br s1)\<rparr>
      in case err of
           Some e \<Rightarrow> (Some e, sendSMTPErrorOrLinef e ''403 4.7.0 TLS handshake failed'' s2)
         | None \<Rightarrow> (None, s2))"

text \<open>
  \<^verbatim>\<open>
  func (s *session) handleMailFrom(email string, size *int) {
      if s.env != nil {
          s.sendlinef("503 5.5.1 Error: nested MAIL command")
          return
      }
      cb := s.srv.OnNewMail
      if cb == nil {
          panic("smtpd: Server.OnNewMail is nil")
      }
      s.env = nil
      env, err := cb(s, addrString(email), size)
      if err != nil {
          s.srv.log("Rejecting MAIL FROM %q: %v", email, err)
          s.sendf("451 denied\r\n")
          s.bw.Flush()
          time.Sleep(100 * time.Millisecond)
          s.rwc.Close()
          return
      }
      s.env = env
      s.sendlinef("250 2.1.0 Ok")
  }\<close>
\<close>

definition handleMailFrom ::
  "'w Server \<Rightarrow> string \<Rightarrow> int option \<Rightarrow> 'w session \<Rightarrow> control \<times> 'w session" where
  "handleMailFrom srv email sz s =
     (if env s \<noteq> None then (Continue, sendlinef ''503 5.5.1 Error: nested MAIL command'' s)
      else
        (case OnNewMail srv of
           None \<Rightarrow> (Panicked NilOnNewMail, s)
         | Some cb \<Rightarrow>
             (let ((e, err), w) = cb email sz (world s);
                  s1 = s\<lparr>env := None, world := w,
                         events := events s @ [CallNewMail email sz (e \<noteq> None) err]\<rparr>
              in if err \<noteq> None then (Continue, (sendf (''451 denied'' @ CRLF) s1)\<lparr>closed := True\<rparr>)
                 else (Continue, sendlinef ''250 2.1.0 Ok'' (s1\<lparr>env := e\<rparr>)))))"

text \<open>
  \<^verbatim>\<open>
  func (s *session) handleRcpt(line cmdLine) {
      if s.env == nil {
          s.sendlinef("503 5.5.1 Error: need MAIL command")
          return
      }
      arg := line.Arg() // "To:<foo@bar.com>"
      m := rcptToRE.FindStringSubmatch(arg)
      if m == nil {
          s.srv.log("Bad RCPT address: %q", arg)
          s.sendlinef("501 5.1.7 Bad sender address syntax")
          return
      }
      err := s.env.AddRecipient(addrString(m[1]))
      if err != nil {
          s.sendSMTPErrorOrLinef(err, "550 bad recipient")
          return
      }
      s.sendlinef("250 2.1.0 Ok")
  }\<close>
\<close>

definition handleRcpt :: "cmdLine \<Rightarrow> 'w session \<Rightarrow> control \<times> 'w session" where
  "handleRcpt line s =
     (case env s of
        None \<Rightarrow> (Continue, sendlinef ''503 5.5.1 Error: need MAIL command'' s)
      | Some e \<Rightarrow>
          (case Arg line of
             Inl p \<Rightarrow> (Panicked p, s)
           | Inr arg \<Rightarrow>
               (case rcptToRE arg of
                  None \<Rightarrow> (Continue, sendlinef ''501 5.1.7 Bad sender address syntax'' s)
                | Some m1 \<Rightarrow>
                    (let (err, w) = AddRecipient e m1 (world s);
                         s1 = s\<lparr>world := w, events := events s @ [CallAddRecipient m1 err]\<rparr>
                     in case err of
                          Some er \<Rightarrow> (Continue, sendSMTPErrorOrLinef er ''550 bad recipient'' s1)
                        | None \<Rightarrow> (Continue, sendlinef ''250 2.1.0 Ok'' s1)))))"

text \<open>
  \<^verbatim>\<open>
  func (s *session) handleError(method string, err error) {
      if se, ok := err.(SMTPError); ok {
          s.sendlinef("%s", se)
          return
      }
      s.srv.log("Method %s returns error: %v", method, err)
      s.env = nil
  }\<close>
\<close>

fun handleError :: "error \<Rightarrow> 'w session \<Rightarrow> 'w session" where
  "handleError (SMTPError se) s = sendlinef se s"
| "handleError (errorString e) s = s\<lparr>env := None\<rparr>"

text \<open>
  The loop of \<^verbatim>\<open>handleData\<close>, and how it ends.
  \<^verbatim>\<open>
  for {
      sl, err := s.br.ReadSlice('\n')
      if err != nil {
          s.errorf("read error: %v", err)
          return
      }
      if bytes.Equal(sl, []byte(".\r\n")) {
          break
      }
      if sl[0] == '.' {
          sl = sl[1:]
      }
      err = s.env.Write(sl)
      if err != nil {
          s.sendSMTPErrorOrLinef(err, "550 ??? failed")
          return
      }
  }\<close>
\<close>

datatype dataExit = EndOfData | ReadFailed error | WriteFailed error | IndexPanic

function dataLoop :: "'w Envelope \<Rightarrow> 'w session \<Rightarrow> dataExit \<times> 'w session" where
  "dataLoop e s =
     (case ReadSlice (br s) of
        ((sl, Some err), rest) \<Rightarrow> (ReadFailed err, s\<lparr>br := rest\<rparr>)
      | ((sl, None), rest) \<Rightarrow>
          if sl = CHR ''.'' # CRLF then (EndOfData, s\<lparr>br := rest\<rparr>)
          else if sl = [] then (IndexPanic, s\<lparr>br := rest\<rparr>)
          else
            (let sl' = (if hd sl = CHR ''.'' then tl sl else sl);
                 (err, w) = Write e sl' (world s);
                 s1 = s\<lparr>br := rest, world := w, events := events s @ [CallWrite sl' err]\<rparr>
             in case err of
                  Some er \<Rightarrow> (WriteFailed er, s1)
                | None \<Rightarrow> dataLoop e s1))"
  by pat_completeness auto

lemma IndexByte_Some_less: "IndexByte s c = Some i \<Longrightarrow> i < length s"
  by (induction s arbitrary: i) (auto split: if_splits)

lemma ReadSlice_shorter:
  assumes "ReadSlice inp = ((sl, None), rest)"
  shows "length rest < length inp"
proof -
  from assms obtain i where i: "IndexByte (take defaultBufSize inp) LF = Some i"
    and rest: "rest = drop (i + 1) inp"
    by (auto simp: ReadSlice_def split: option.splits if_splits)
  from IndexByte_Some_less [OF i] have "i < length inp" by simp
  with rest show ?thesis by simp
qed

termination dataLoop
  by (relation "measure (\<lambda>(e, s). length (br s))") (auto dest: ReadSlice_shorter [OF sym])

declare dataLoop.simps [simp del]

text \<open>The loop, one case at a time.\<close>

lemma dataLoop_ReadFailed:
  "ReadSlice (br s) = ((sl, Some err), rest) \<Longrightarrow> dataLoop e s = (ReadFailed err, s\<lparr>br := rest\<rparr>)"
  by (subst dataLoop.simps) simp

lemma dataLoop_EndOfData:
  "ReadSlice (br s) = ((CHR ''.'' # CRLF, None), rest) \<Longrightarrow> dataLoop e s = (EndOfData, s\<lparr>br := rest\<rparr>)"
  by (subst dataLoop.simps) simp

lemma dataLoop_IndexPanic:
  "ReadSlice (br s) = (([], None), rest) \<Longrightarrow> dataLoop e s = (IndexPanic, s\<lparr>br := rest\<rparr>)"
  by (subst dataLoop.simps) (simp add: CRLF_def)

lemma dataLoop_WriteFailed:
  "ReadSlice (br s) = ((sl, None), rest) \<Longrightarrow> sl \<noteq> CHR ''.'' # CRLF \<Longrightarrow> sl \<noteq> [] \<Longrightarrow>
   Write e (if hd sl = CHR ''.'' then tl sl else sl) (world s) = (Some er, w) \<Longrightarrow>
   dataLoop e s =
     (WriteFailed er,
      s\<lparr>br := rest, world := w,
        events := events s @ [CallWrite (if hd sl = CHR ''.'' then tl sl else sl) (Some er)]\<rparr>)"
  by (subst dataLoop.simps) simp

lemma dataLoop_next:
  "ReadSlice (br s) = ((sl, None), rest) \<Longrightarrow> sl \<noteq> CHR ''.'' # CRLF \<Longrightarrow> sl \<noteq> [] \<Longrightarrow>
   Write e (if hd sl = CHR ''.'' then tl sl else sl) (world s) = (None, w) \<Longrightarrow>
   dataLoop e s =
     dataLoop e
       (s\<lparr>br := rest, world := w,
          events := events s @ [CallWrite (if hd sl = CHR ''.'' then tl sl else sl) None]\<rparr>)"
  by (subst dataLoop.simps) simp

text \<open>
  \<^verbatim>\<open>
  func (s *session) handleData() {
      if s.env == nil {
          s.sendlinef("503 5.5.1 Error: need RCPT command")
          return
      }
      if err := s.env.BeginData(); err != nil {
          s.handleError("BeginData", err)
          return
      }
      s.sendlinef("354 Go ahead")
      for { ... }
      if err := s.env.Close(); err != nil {
          s.handleError("Close", err)
          return
      }
      s.sendlinef("250 2.0.0 Ok: queued")
      s.env = nil
  }\<close>
\<close>

definition handleData :: "'w session \<Rightarrow> control \<times> 'w session" where
  "handleData s =
     (case env s of
        None \<Rightarrow> (Continue, sendlinef ''503 5.5.1 Error: need RCPT command'' s)
      | Some e \<Rightarrow>
          (let (err, w) = BeginData e (world s);
               s1 = s\<lparr>world := w, events := events s @ [CallBeginData err]\<rparr>
           in case err of
                Some er \<Rightarrow> (Continue, handleError er s1)
              | None \<Rightarrow>
                  (case dataLoop e (sendlinef ''354 Go ahead'' s1) of
                     (ReadFailed er, s2) \<Rightarrow> (Continue, s2)
                   | (WriteFailed er, s2) \<Rightarrow>
                       (Continue, sendSMTPErrorOrLinef er ''550 ??? failed'' s2)
                   | (IndexPanic, s2) \<Rightarrow> (Panicked IndexRange, s2)
                   | (EndOfData, s2) \<Rightarrow>
                       (let (cerr, w') = Close e (world s2);
                            s3 = s2\<lparr>world := w', events := events s2 @ [CallClose cerr]\<rparr>
                        in case cerr of
                             Some er \<Rightarrow> (Continue, handleError er s3)
                           | None \<Rightarrow>
                               (Continue, (sendlinef ''250 2.0.0 Ok: queued'' s3)\<lparr>env := None\<rparr>)))))"

text \<open>
  The body of the loop of \<^verbatim>\<open>serve\<close>, for a line \<open>sl\<close> that \<^verbatim>\<open>ReadSlice\<close> has returned
  without error: \<open>Continue\<close> goes on to the next line (Go's \<^verbatim>\<open>continue\<close>, or the end of
  the \<^verbatim>\<open>switch\<close>), \<open>Return\<close> leaves \<^verbatim>\<open>serve\<close>.
  \<^verbatim>\<open>
  line := cmdLine(string(sl))
  if err := line.checkValid(); err != nil {
      s.sendlinef("500 %v", err)
      continue
  }
  switch line.Verb() {
  case "HELO", "EHLO":
      s.handleHello(line.Verb(), line.Arg())
  case "STARTTLS":
      if s.srv.TLSConfig == nil {
          s.sendlinef("502 5.5.2 Error: command not recognized")
          continue
      }
      if err := s.handleStartTLS(); err != nil {
          s.errorf("failed to start tls: %s", err)
      }
  case "QUIT":
      s.sendlinef("221 2.0.0 Bye")
      return
  case "RSET":
      s.env = nil
      s.sendlinef("250 2.0.0 OK")
  case "NOOP":
      s.sendlinef("250 2.0.0 OK")
  case "MAIL":
      arg := line.Arg() // "From:<foo@bar.com>"
      m := mailFromRE.FindStringSubmatch(arg)
      if m == nil {
          s.srv.log("Invalid MAIL arg: %q", arg)
          s.sendlinef("501 5.1.7 Bad sender address syntax")
          continue
      }
      var size *int
      if len(m) == 3 && len(m[2]) > 0 {
          if sizeMatch := mailSizeRE.FindStringSubmatch(m[2]); sizeMatch != nil {
              parsedSize, err := strconv.Atoi(sizeMatch[1])
              if err != nil {
                  s.sendlinef("501 5.5.4 Syntax error in parameters or arguments (invalid SIZE parameter)")
                  continue
              }
              size = &parsedSize
          }
      }
      s.handleMailFrom(m[1], size)
  case "RCPT":
      s.handleRcpt(line)
  case "DATA":
      s.handleData()
  default:
      s.sendlinef("502 5.5.2 Error: command not recognized")
  }\<close>
\<close>

definition serve_step :: "'w Server \<Rightarrow> string \<Rightarrow> 'w session \<Rightarrow> control \<times> 'w session" where
  "serve_step srv sl s0 =
     (let s = s0\<lparr>events := events s0 @ [Cmd sl]\<rparr> in
      case checkValid sl of
        Inl p \<Rightarrow> (Panicked p, s)
      | Inr (Some err) \<Rightarrow> (Continue, sendlinef (''500 '' @ Error err) s)
      | Inr None \<Rightarrow>
          (case Verb sl of
             Inl p \<Rightarrow> (Panicked p, s)
           | Inr verb \<Rightarrow>
               if verb = ''HELO'' \<or> verb = ''EHLO'' then
                 (case Arg sl of
                    Inl p \<Rightarrow> (Panicked p, s)
                  | Inr host \<Rightarrow> (Continue, handleHello srv verb host s))
               else if verb = ''STARTTLS'' then
                 (case TLSConfig srv of
                    None \<Rightarrow> (Continue, sendlinef ''502 5.5.2 Error: command not recognized'' s)
                  | Some cfg \<Rightarrow> (Continue, snd (handleStartTLS cfg s)))
               else if verb = ''QUIT'' then (Return, sendlinef ''221 2.0.0 Bye'' s)
               else if verb = ''RSET'' then (Continue, sendlinef ''250 2.0.0 OK'' (s\<lparr>env := None\<rparr>))
               else if verb = ''NOOP'' then (Continue, sendlinef ''250 2.0.0 OK'' s)
               else if verb = ''MAIL'' then
                 (case Arg sl of
                    Inl p \<Rightarrow> (Panicked p, s)
                  | Inr arg \<Rightarrow>
                      (case mailFromRE arg of
                         None \<Rightarrow> (Continue, sendlinef ''501 5.1.7 Bad sender address syntax'' s)
                       | Some (m1, m2) \<Rightarrow>
                           if m2 \<noteq> [] then
                             (case mailSizeRE m2 of
                                Some sizeMatch \<Rightarrow>
                                  (case Atoi sizeMatch of
                                     None \<Rightarrow>
                                       (Continue,
                                        sendlinef ''501 5.5.4 Syntax error in parameters or arguments (invalid SIZE parameter)'' s)
                                   | Some parsedSize \<Rightarrow> handleMailFrom srv m1 (Some parsedSize) s)
                              | None \<Rightarrow> handleMailFrom srv m1 None s)
                           else handleMailFrom srv m1 None s))
               else if verb = ''RCPT'' then handleRcpt sl s
               else if verb = ''DATA'' then handleData s
               else (Continue, sendlinef ''502 5.5.2 Error: command not recognized'' s)))"

lemma br_sendf [simp]: "br (sendf str s) = br s"
  by (simp add: sendf_def)

lemma br_sendlinef [simp]: "br (sendlinef str s) = br s"
  by (simp add: sendlinef_def)

lemma br_sendSMTPErrorOrLinef [simp]: "br (sendSMTPErrorOrLinef e str s) = br s"
  by (cases e) simp_all

lemma br_handleError [simp]: "br (handleError e s) = br s"
  by (cases e) simp_all

lemma br_handleHello [simp]: "br (handleHello srv g h s) = br s"
proof -
  have "br (foldl (\<lambda>t ext. sendf (ext @ CRLF) t) t0 xs) = br t0" for xs and t0 :: "'a session"
    by (induction xs arbitrary: t0) simp_all
  then show ?thesis by (simp add: handleHello_def)
qed

lemma ReadSlice_rest: "length (snd (ReadSlice inp)) \<le> length inp"
  by (auto simp: ReadSlice_def split: option.splits)

lemma br_dataLoop: "length (br (snd (dataLoop e s))) \<le> length (br s)"
proof (induction "length (br s)" arbitrary: s rule: less_induct)
  case less
  obtain sl err rest where r: "ReadSlice (br s) = ((sl, err), rest)"
    by (metis prod.exhaust)
  from ReadSlice_rest [of "br s"] r have le: "length rest \<le> length (br s)" by simp
  show ?case
  proof (cases err)
    case (Some er)
    with r le show ?thesis by (simp add: dataLoop_ReadFailed)
  next
    case None
    with r have lt: "length rest < length (br s)" by (simp add: ReadSlice_shorter)
    define sl' where "sl' = (if hd sl = CHR ''.'' then tl sl else sl)"
    obtain werr w where w: "Write e sl' (world s) = (werr, w)" by (metis prod.exhaust)
    consider "sl = CHR ''.'' # CRLF" | "sl = []" | "sl \<noteq> CHR ''.'' # CRLF" "sl \<noteq> []" by blast
    then show ?thesis
    proof cases
      case 1
      with r None le show ?thesis by (simp add: dataLoop_EndOfData)
    next
      case 2
      with r None le show ?thesis by (simp add: dataLoop_IndexPanic)
    next
      case 3
      show ?thesis
      proof (cases werr)
        case (Some er)
        with r None 3 w le show ?thesis by (simp add: dataLoop_WriteFailed sl'_def)
      next
        case wNone: None
        define s1 where "s1 = s\<lparr>br := rest, world := w, events := events s @ [CallWrite sl' None]\<rparr>"
        have "dataLoop e s = dataLoop e s1"
          using r None 3 w wNone unfolding s1_def sl'_def by (simp add: dataLoop_next)
        moreover have "length (br (snd (dataLoop e s1))) \<le> length (br s1)"
          using less [of s1] lt by (simp add: s1_def)
        ultimately show ?thesis using lt by (simp add: s1_def)
      qed
    qed
  qed
qed

lemma br_handleData: "length (br (snd (handleData s))) \<le> length (br s)"
proof (cases "env s")
  case None
  then show ?thesis by (simp add: handleData_def)
next
  case (Some e)
  obtain err w where b: "BeginData e (world s) = (err, w)" by (metis prod.exhaust)
  show ?thesis
  proof (cases err)
    case (Some er)
    with \<open>env s = Some e\<close> b show ?thesis by (simp add: handleData_def)
  next
    case None
    obtain x s2 where d:
      "dataLoop e (sendlinef ''354 Go ahead'' (s\<lparr>world := w, events := events s @ [CallBeginData None]\<rparr>))
         = (x, s2)"
      by (metis prod.exhaust)
    obtain cerr w' where c: "Close e (world s2) = (cerr, w')" by (metis prod.exhaust)
    from br_dataLoop [of e "sendlinef ''354 Go ahead'' (s\<lparr>world := w, events := events s @ [CallBeginData None]\<rparr>)"] d
    have "length (br s2) \<le> length (br s)" by simp
    with \<open>env s = Some e\<close> b None d c show ?thesis
      by (cases x; cases cerr) (simp_all add: handleData_def)
  qed
qed

lemma br_serve_step: "length (br (snd (serve_step srv sl s))) \<le> length (br s)"
proof -
  have m: "length (br (snd (handleMailFrom srv a z t))) \<le> length (br t)" for a z and t :: "'a session"
    by (auto simp: handleMailFrom_def Let_def split: option.splits prod.splits)
  have r: "length (br (snd (handleRcpt sl t))) \<le> length (br t)" for t :: "'a session"
    by (auto simp: handleRcpt_def Let_def split: option.splits prod.splits sum.splits)
  have t: "length (br (snd (handleStartTLS cfg t))) \<le> length (br t)" for cfg and t :: "'a session"
    by (auto simp: handleStartTLS_def Let_def split: option.splits prod.splits)
  define s' where "s' = s\<lparr>events := events s @ [Cmd sl]\<rparr>"
  have s': "br s' = br s" by (simp add: s'_def)
  show ?thesis
    unfolding serve_step_def Let_def s'_def [symmetric]
    using m [of _ _ s'] r [of s'] t [of _ s'] br_handleData [of s'] s'
    by (auto split: sum.splits option.splits prod.splits)
qed

text \<open>
  The loop of \<^verbatim>\<open>serve\<close>: it returns when a read fails, on QUIT, and on a panic (the
  value tells which).
  \<^verbatim>\<open>
  for {
      sl, err := s.br.ReadSlice('\n')
      if err != nil {
          s.errorf("read error: %v", err)
          return
      }
      ...
  }\<close>
\<close>

function serve_loop :: "'w Server \<Rightarrow> 'w session \<Rightarrow> panic option \<times> 'w session" where
  "serve_loop srv s =
     (case ReadSlice (br s) of
        ((sl, Some err), rest) \<Rightarrow> (None, s\<lparr>br := rest\<rparr>)
      | ((sl, None), rest) \<Rightarrow>
          (case serve_step srv sl (s\<lparr>br := rest\<rparr>) of
             (Continue, s') \<Rightarrow> serve_loop srv s'
           | (Return, s') \<Rightarrow> (None, s')
           | (Panicked p, s') \<Rightarrow> (Some p, s')))"
  by pat_completeness auto
lemma serve_step_shorter:
  "ReadSlice (br s) = ((sl, None), rest) \<Longrightarrow> serve_step srv sl (s\<lparr>br := rest\<rparr>) = (c, s') \<Longrightarrow>
   length (br s') < length (br s)"
  using br_serve_step [of srv sl "s\<lparr>br := rest\<rparr>"] ReadSlice_shorter [of "br s" sl rest]
  by simp

termination serve_loop
  by (relation "measure (\<lambda>(srv, s). length (br s))")
     (auto dest: serve_step_shorter [OF sym sym])

declare serve_loop.simps [simp del]

text \<open>
  \<^verbatim>\<open>
  func (s *session) serve() {
      defer s.rwc.Close()
      if onc := s.srv.OnNewConnection; onc != nil {
          if err := onc(s); err != nil {
              s.sendSMTPErrorOrLinef(err, "554 connection rejected")
              return
          }
      }
      s.sendf("220 %s ESMTP gosmtpd\r\n", s.srv.hostname())
      for { ... }
  }\<close>
  \<open>greet\<close> is the part before the loop: the session, and whether the loop is entered
  (it is not when the hook refuses the connection). The deferred \<^verbatim>\<open>Close\<close> is the last
  update of \<open>serve\<close>.
\<close>

definition greet :: "'w Server \<Rightarrow> 'w session \<Rightarrow> 'w session \<times> bool" where
  "greet srv s =
     (case OnNewConnection srv of
        None \<Rightarrow> (sendf (''220 '' @ hostname srv @ '' ESMTP gosmtpd'' @ CRLF) s, True)
      | Some onc \<Rightarrow>
          (let (err, w) = onc (world s);
               s1 = s\<lparr>world := w, events := events s @ [CallNewConnection err]\<rparr>
           in case err of
                Some e \<Rightarrow> (sendSMTPErrorOrLinef e ''554 connection rejected'' s1, False)
              | None \<Rightarrow> (sendf (''220 '' @ hostname srv @ '' ESMTP gosmtpd'' @ CRLF) s1, True)))"

definition serve :: "'w Server \<Rightarrow> 'w session \<Rightarrow> panic option \<times> 'w session" where
  "serve srv s =
     (case greet srv s of
        (s1, False) \<Rightarrow> (None, s1\<lparr>closed := True\<rparr>)
      | (s1, True) \<Rightarrow> (case serve_loop srv s1 of (p, s2) \<Rightarrow> (p, s2\<lparr>closed := True\<rparr>)))"

section \<open>The basic envelope and the embedders used as inputs\<close>

text \<open>
  \<^verbatim>\<open>type BasicEnvelope struct { rcpts []MailAddress }\<close>: the embedder's world is the
  store of the envelopes allocated so far, each the list of its recipients, and a
  \<^verbatim>\<open>*BasicEnvelope\<close> is an index into it. (\<^verbatim>\<open>Write\<close> prints the line to the standard
  output of the process, which is not part of the model.)
\<close>

type_synonym store = "addrString list list"

definition BasicEnvelope_AddRecipient :: "nat \<Rightarrow> addrString \<Rightarrow> store \<Rightarrow> error option \<times> store" where
  "BasicEnvelope_AddRecipient p rcpt w = (None, w[p := w ! p @ [rcpt]])"

definition BasicEnvelope_BeginData :: "nat \<Rightarrow> store \<Rightarrow> error option \<times> store" where
  "BasicEnvelope_BeginData p w =
     (if length (w ! p) = 0 then (Some (SMTPError ''554 5.5.1 Error: no valid recipients''), w)
      else (None, w))"

definition BasicEnvelope_Write :: "nat \<Rightarrow> string \<Rightarrow> store \<Rightarrow> error option \<times> store" where
  "BasicEnvelope_Write p line w = (None, w)"

definition BasicEnvelope_Close :: "nat \<Rightarrow> store \<Rightarrow> error option \<times> store" where
  "BasicEnvelope_Close p w = (None, w)"

text \<open>
  The sample server of the repository: its envelope embeds a \<^verbatim>\<open>*BasicEnvelope\<close> and
  refuses the recipients that start with \<^verbatim>\<open>bad@\<close>.
  \<^verbatim>\<open>
  func (e *env) AddRecipient(rcpt smtpd.MailAddress) error {
      if strings.HasPrefix(rcpt.Email(), "bad@") {
          return errors.New("we don't send email to bad@")
      }
      return e.BasicEnvelope.AddRecipient(rcpt)
  }
  func onNewMail(c smtpd.Connection, from smtpd.MailAddress, size *int) (smtpd.Envelope, error) {
      ...
      return &env{new(smtpd.BasicEnvelope)}, nil
  }
  s := &smtpd.Server{Addr: ":2500", OnNewMail: onNewMail, MaxSize: 10 * 1024 * 1024}\<close>
  The parameter of \<open>ajas\<close> is the name that the command \<^verbatim>\<open>hostname\<close> prints.
\<close>

definition ajas_env :: "nat \<Rightarrow> store Envelope" where
  "ajas_env p =
     \<lparr>AddRecipient =
        (\<lambda>rcpt w. if HasPrefix (addrString_Email rcpt) ''bad@''
                  then (Some (errorString ''we don't send email to bad@''), w)
                  else BasicEnvelope_AddRecipient p rcpt w),
      BeginData = BasicEnvelope_BeginData p,
      Write = BasicEnvelope_Write p,
      Close = BasicEnvelope_Close p\<rparr>"

definition ajas_onNewMail ::
  "addrString \<Rightarrow> int option \<Rightarrow> store \<Rightarrow> (store Envelope option \<times> error option) \<times> store" where
  "ajas_onNewMail from sz w = ((Some (ajas_env (length w)), None), w @ [[]])"

definition ajas :: "string \<Rightarrow> store Server" where
  "ajas name =
     \<lparr>Hostname = [], PlainAuth = False, TLSConfig = None, MaxSize = 10 * 1024 * 1024,
      OnNewConnection = None, OnNewMail = Some ajas_onNewMail,
      execHostname = Some (name @ [LF])\<rparr>"

text \<open>
  An embedder whose envelope accepts every recipient and every line, and whose
  \<^verbatim>\<open>BeginData\<close> and \<^verbatim>\<open>Close\<close> return the errors given (\<open>None\<close> for nil). Its world
  is the list of the lines written.
\<close>

definition plain_env :: "error option \<Rightarrow> error option \<Rightarrow> string list Envelope" where
  "plain_env begin_err close_err =
     \<lparr>AddRecipient = (\<lambda>rcpt w. (None, w)),
      BeginData = (\<lambda>w. (begin_err, w)),
      Write = (\<lambda>line w. (None, w @ [line])),
      Close = (\<lambda>w. (close_err, w))\<rparr>"

definition plain_srv :: "error option \<Rightarrow> error option \<Rightarrow> string list Server" where
  "plain_srv begin_err close_err =
     \<lparr>Hostname = ''mx'', PlainAuth = False, TLSConfig = None, MaxSize = 0,
      OnNewConnection = None,
      OnNewMail = Some (\<lambda>from sz w. ((Some (plain_env begin_err close_err), None), w)),
      execHostname = None\<rparr>"

section \<open>Properties of the string helpers\<close>

lemma IndexByte_None: "IndexByte s c = None \<longleftrightarrow> c \<notin> set s"
  by (induction s) auto


section \<open>Mail addresses: the host name\<close>




section \<open>Replies\<close>

lemma sendf_open: "\<not> closed s \<Longrightarrow> sendf str s = s\<lparr>events := events s @ [Sent str]\<rparr>"
  by (simp add: sendf_def)

lemma sendlinef_open: "\<not> closed s \<Longrightarrow> sendlinef str s = s\<lparr>events := events s @ [Sent (str @ CRLF)]\<rparr>"
  by (simp add: sendlinef_def sendf_def)

lemma env_sendf [simp]: "env (sendf str s) = env s"
  by (simp add: sendf_def)

lemma env_sendlinef [simp]: "env (sendlinef str s) = env s"
  by (simp add: sendlinef_def)

lemma env_sendSMTPErrorOrLinef [simp]: "env (sendSMTPErrorOrLinef e str s) = env s"
  by (cases e) simp_all

lemma closed_sendf [simp]: "closed (sendf str s) = closed s"
  by (simp add: sendf_def)

lemma closed_sendlinef [simp]: "closed (sendlinef str s) = closed s"
  by (simp add: sendlinef_def)

lemma foldl_sendf_open:
  "\<not> closed t \<Longrightarrow>
   foldl (\<lambda>t ext. sendf (ext @ CRLF) t) t xs
     = t\<lparr>events := events t @ map (\<lambda>ext. Sent (ext @ CRLF)) xs\<rparr>"
  by (induction xs arbitrary: t) (simp_all add: sendf_open)

lemma foldl_sendf_env: "env (foldl (\<lambda>t ext. sendf (ext @ CRLF) t) t xs) = env t"
  by (induction xs arbitrary: t) simp_all

lemma handleHello_open:
  "\<not> closed s \<Longrightarrow>
   handleHello srv greeting host s
     = s\<lparr>helloType := greeting, helloHost := host,
         events := events s @ Sent (''250-'' @ hostname srv @ CRLF)
                     # map (\<lambda>ext. Sent (ext @ CRLF)) (extensions srv)\<rparr>"
  by (simp add: handleHello_def sendf_open foldl_sendf_open)

lemma env_handleHello [simp]: "env (handleHello srv greeting host s) = env s"
  by (simp add: handleHello_def foldl_sendf_env)

section \<open>Command lines that end in CR LF\<close>

lemma IndexByte_nth: "IndexByte s c = Some i \<Longrightarrow> s ! i = c"
proof (induction s arbitrary: i)
  case Nil
  then show ?case by simp
next
  case (Cons x xs)
  then show ?case by (cases "x = c") auto
qed

lemma HasSuffix_CRLF_length: "HasSuffix cl CRLF \<Longrightarrow> 2 \<le> length cl"
  by (simp add: HasSuffix_def CRLF_def)

lemma HasSuffix_CRLF_split: "HasSuffix cl CRLF \<Longrightarrow> \<exists>pre. cl = pre @ [CR, LF]"
proof -
  assume "HasSuffix cl CRLF"
  then have "drop (length cl - length CRLF) cl = [CR, LF]"
    by (simp add: HasSuffix_def CRLF_def)
  then have "cl = take (length cl - length CRLF) cl @ [CR, LF]"
    by (metis append_take_drop_id)
  then show ?thesis ..
qed

lemma IndexByte_append_less:
  "IndexByte (xs @ ys) c = Some i \<Longrightarrow> c \<notin> set ys \<Longrightarrow> i < length xs"
proof (induction xs arbitrary: i)
  case Nil
  then show ?case by (simp add: IndexByte_None [THEN iffD2])
next
  case (Cons x xs)
  then show ?case by (cases "x = c") auto
qed

lemma HasSuffix_CRLF_space:
  assumes "HasSuffix cl CRLF" and "IndexByte cl (CHR '' '') = Some idx"
  shows "idx + 1 \<le> length cl - 2"
proof -
  from HasSuffix_CRLF_split [OF assms(1)] obtain pre where cl: "cl = pre @ [CR, LF]" ..
  from assms(2) have "idx < length pre"
    unfolding cl by (rule IndexByte_append_less) simp
  then show ?thesis by (simp add: cl)
qed


lemma Arg_no_panic: "HasSuffix cl CRLF \<Longrightarrow> \<exists>a. Arg cl = Inr a"
  using HasSuffix_CRLF_space [of cl] HasSuffix_CRLF_length [of cl]
  by (auto simp: Arg_def split: option.splits)


lemma checkValid_ok_suffix: "checkValid cl = Inr None \<Longrightarrow> HasSuffix cl CRLF"
  by (auto simp: checkValid_def split: if_splits)

section \<open>Framing faults\<close>

text \<open>
  C2 (as amended). For every line read that does not end in CR LF the session sends one
  reply, the line \<^verbatim>\<open>500 line doesn't end in \r\n\<close>, changes nothing else of its state
  and goes on to read the next line (it does not terminate).
\<close>

theorem framing_fault_500_continue:
  assumes "\<not> HasSuffix sl CRLF" and "\<not> closed s"
  shows "serve_step srv sl s =
           (Continue,
            s\<lparr>events := events s @
                [Cmd sl,
                 Sent (''500 line doesn't end in '' @ [BSL, CHR ''r'', BSL, CHR ''n''] @ CRLF)]\<rparr>)"
  using assms by (simp add: serve_step_def checkValid_def errNoCRLF_def sendlinef_open)

theorem framing_fault_500_continue_witness:
  "serve_step (plain_srv None None) (''NOOP'' @ [LF]) (newSession ''QUIT'' []) =
     (Continue,
      (newSession ''QUIT'' [])\<lparr>events :=
         [Cmd (''NOOP'' @ [LF]),
          Sent (''500 line doesn't end in '' @ [BSL, CHR ''r'', BSL, CHR ''n''] @ CRLF)]\<rparr>)"
proof -
  have a: "\<not> HasSuffix (''NOOP'' @ [LF]) CRLF" by code_simp
  have b: "\<not> closed (newSession ''QUIT'' ([] :: string list))" by (simp add: newSession_def)
  show ?thesis
    using framing_fault_500_continue [OF a b, of "plain_srv None None"]
    by (simp add: newSession_def)
qed

text \<open>
  C2 (as stated) fails: after the 500 reply the session does not terminate. Here the
  client sends NOOP ended by a bare LF, then a well-formed NOOP: the second command is
  read and answered.
\<close>

theorem framing_fault_terminates_counterexample:
  "events (snd (serve (plain_srv None None) (newSession (''NOOP'' @ [LF] @ ''NOOP'' @ CRLF) []))) =
     [Sent (''220 mx ESMTP gosmtpd'' @ CRLF),
      Cmd (''NOOP'' @ [LF]),
      Sent (''500 line doesn't end in '' @ [BSL, CHR ''r'', BSL, CHR ''n''] @ CRLF),
      Cmd (''NOOP'' @ CRLF),
      Sent (''250 2.0.0 OK'' @ CRLF)]"
  by code_simp

section \<open>HELO and EHLO\<close>

lemma serve_step_hello:
  assumes "checkValid sl = Inr None" and "Verb sl = Inr v" and "v = ''HELO'' \<or> v = ''EHLO''"
  shows "\<exists>host. Arg sl = Inr host \<and>
           serve_step srv sl s =
             (Continue, handleHello srv v host (s\<lparr>events := events s @ [Cmd sl]\<rparr>))"
proof -
  from Arg_no_panic [OF checkValid_ok_suffix [OF assms(1)]]
  obtain host where "Arg sl = Inr host" ..
  with assms show ?thesis by (auto simp: serve_step_def)
qed

lemma extensions_last: "last (extensions srv) = ''250 DSN'' \<and> 4 \<le> length (extensions srv)"
  by (simp add: extensions_def)

text \<open>
  C7. The reply to EHLO is a function of the server configuration alone: the line
  \<^verbatim>\<open>250-<hostname>\<close>, then \<^verbatim>\<open>250-AUTH PLAIN\<close> if \<^verbatim>\<open>PlainAuth\<close> is set,
  \<^verbatim>\<open>250-STARTTLS\<close> if there is a TLS configuration, \<^verbatim>\<open>250-SIZE <n>\<close> if
  \<^verbatim>\<open>MaxSize\<close> is not 0, then always \<^verbatim>\<open>250-PIPELINING\<close>, \<^verbatim>\<open>250-ENHANCEDSTATUSCODES\<close>,
  \<^verbatim>\<open>250-8BITMIME\<close> and, as the last line, \<^verbatim>\<open>250 DSN\<close>; every line ends in CR LF.
\<close>

theorem ehlo_reply:
  assumes "checkValid sl = Inr None" and "Verb sl = Inr ''EHLO''" and "\<not> closed s"
  shows "fst (serve_step srv sl s) = Continue \<and>
         events (snd (serve_step srv sl s)) =
           events s @ Cmd sl #
             map Sent
               ([''250-'' @ hostname srv @ CRLF]
                @ (if PlainAuth srv then [''250-AUTH PLAIN'' @ CRLF] else [])
                @ (if TLSConfig srv \<noteq> None then [''250-STARTTLS'' @ CRLF] else [])
                @ (if MaxSize srv \<noteq> 0 then [''250-SIZE '' @ showInt (MaxSize srv) @ CRLF] else [])
                @ [''250-PIPELINING'' @ CRLF, ''250-ENHANCEDSTATUSCODES'' @ CRLF,
                   ''250-8BITMIME'' @ CRLF, ''250 DSN'' @ CRLF])"
proof -
  from serve_step_hello [OF assms(1) assms(2), of srv s]
  obtain host where
    "serve_step srv sl s = (Continue, handleHello srv ''EHLO'' host (s\<lparr>events := events s @ [Cmd sl]\<rparr>))"
    by auto
  with assms(3) show ?thesis
    by (simp add: handleHello_open extensions_def)
qed

theorem ehlo_reply_witness:
  "fst (serve_step (ajas ''host'') (''EHLO mail.example.com'' @ CRLF) (newSession [] [])) = Continue \<and>
   events (snd (serve_step (ajas ''host'') (''EHLO mail.example.com'' @ CRLF) (newSession [] []))) =
     [Cmd (''EHLO mail.example.com'' @ CRLF),
      Sent (''250-host'' @ CRLF), Sent (''250-SIZE 10485760'' @ CRLF),
      Sent (''250-PIPELINING'' @ CRLF), Sent (''250-ENHANCEDSTATUSCODES'' @ CRLF),
      Sent (''250-8BITMIME'' @ CRLF), Sent (''250 DSN'' @ CRLF)]"
proof -
  have a: "checkValid (''EHLO mail.example.com'' @ CRLF) = Inr None" by code_simp
  have b: "Verb (''EHLO mail.example.com'' @ CRLF) = Inr ''EHLO''" by code_simp
  have c: "\<not> closed (newSession [] ([] :: store))" by (simp add: newSession_def)
  have h: "hostname (ajas ''host'') = ''host''" by code_simp
  have m: "showInt (MaxSize (ajas ''host'')) = ''10485760''"
    by (simp add: ajas_def showInt_def showNat.simps)
  have n: "MaxSize (ajas ''host'') \<noteq> 0" "\<not> PlainAuth (ajas ''host'')" "TLSConfig (ajas ''host'') = None"
    by (simp_all add: ajas_def)
  show ?thesis
    using ehlo_reply [OF a b c, of "ajas ''host''"] h m n
    by (simp add: newSession_def)
qed

text \<open>
  C3 (as amended). The reply to a valid HELO line is the multi-line reply that EHLO
  gets: the line \<^verbatim>\<open>250-<hostname>\<close> followed by the extension lines, of which there are
  at least four and the last is \<^verbatim>\<open>250 DSN\<close>. It is not a single line.
\<close>

theorem helo_reply_multiline:
  assumes "checkValid sl = Inr None" and "Verb sl = Inr ''HELO''" and "\<not> closed s"
  shows "fst (serve_step srv sl s) = Continue \<and>
         events (snd (serve_step srv sl s)) =
           events s @ Cmd sl # Sent (''250-'' @ hostname srv @ CRLF)
             # map (\<lambda>ext. Sent (ext @ CRLF)) (extensions srv) \<and>
         last (extensions srv) = ''250 DSN'' \<and> 4 \<le> length (extensions srv)"
proof -
  from serve_step_hello [OF assms(1) assms(2), of srv s]
  obtain host where
    "serve_step srv sl s = (Continue, handleHello srv ''HELO'' host (s\<lparr>events := events s @ [Cmd sl]\<rparr>))"
    by auto
  with assms(3) show ?thesis
    by (simp add: handleHello_open extensions_last)
qed

theorem helo_reply_multiline_witness:
  "fst (serve_step (plain_srv None None) (''HELO relay.example.org'' @ CRLF) (newSession [] [])) = Continue \<and>
   events (snd (serve_step (plain_srv None None) (''HELO relay.example.org'' @ CRLF) (newSession [] []))) =
     Cmd (''HELO relay.example.org'' @ CRLF) # Sent (''250-mx'' @ CRLF)
       # map (\<lambda>ext. Sent (ext @ CRLF)) (extensions (plain_srv None None)) \<and>
   last (extensions (plain_srv None None)) = ''250 DSN'' \<and>
   4 \<le> length (extensions (plain_srv None None))"
proof -
  have a: "checkValid (''HELO relay.example.org'' @ CRLF) = Inr None" by code_simp
  have b: "Verb (''HELO relay.example.org'' @ CRLF) = Inr ''HELO''" by code_simp
  have c: "\<not> closed (newSession [] ([] :: string list))" by (simp add: newSession_def)
  have h: "hostname (plain_srv None None) = ''mx''" by code_simp
  show ?thesis
    using helo_reply_multiline [OF a b c, of "plain_srv None None"] h
    by (simp add: newSession_def)
qed

text \<open>
  C3 (as stated) fails: the reply to HELO is not the single line \<^verbatim>\<open>250 mx\<close>; it has
  five lines here, the continuation lines of the extensions among them.
\<close>

theorem helo_single_line_counterexample:
  "events (snd (serve_step (plain_srv None None) (''HELO relay.example.org'' @ CRLF) (newSession [] []))) =
     [Cmd (''HELO relay.example.org'' @ CRLF),
      Sent (''250-mx'' @ CRLF), Sent (''250-PIPELINING'' @ CRLF),
      Sent (''250-ENHANCEDSTATUSCODES'' @ CRLF), Sent (''250-8BITMIME'' @ CRLF),
      Sent (''250 DSN'' @ CRLF)] \<and>
   events (snd (serve_step (plain_srv None None) (''HELO relay.example.org'' @ CRLF) (newSession [] []))) \<noteq>
     [Cmd (''HELO relay.example.org'' @ CRLF), Sent (''250 mx'' @ CRLF)]"
  by code_simp

text \<open>
  C8 (as amended). Processing a valid HELO or EHLO line, in any state, leaves the
  session's envelope as it is: a current envelope stays current.
\<close>

theorem hello_keeps_envelope:
  assumes "checkValid sl = Inr None" and "Verb sl = Inr v" and "v = ''HELO'' \<or> v = ''EHLO''"
  shows "env (snd (serve_step srv sl s)) = env s"
proof -
  from serve_step_hello [OF assms, of srv s]
  obtain host where
    "serve_step srv sl s = (Continue, handleHello srv v host (s\<lparr>events := events s @ [Cmd sl]\<rparr>))"
    by auto
  then show ?thesis by simp
qed

theorem hello_keeps_envelope_witness:
  "env (snd (serve_step (plain_srv None None) (''EHLO mail.example.com'' @ CRLF)
              ((newSession [] [])\<lparr>env := Some (plain_env None None)\<rparr>)))
     = Some (plain_env None None)"
proof -
  have a: "checkValid (''EHLO mail.example.com'' @ CRLF) = Inr None" by code_simp
  have b: "Verb (''EHLO mail.example.com'' @ CRLF) = Inr ''EHLO''" by code_simp
  show ?thesis
    using hello_keeps_envelope [OF a b, of "plain_srv None None"
        "(newSession [] [])\<lparr>env := Some (plain_env None None)\<rparr>"]
    by simp
qed

text \<open>
  C8 (as stated) fails: after an accepted MAIL FROM, an EHLO does not clear the
  envelope. The session still holds it when the input ends, and the MAIL FROM that
  follows the EHLO is refused as nested.
\<close>

theorem hello_clears_envelope_counterexample:
  "map_option (\<lambda>e. ()) (env (snd (serve (plain_srv None None)
       (newSession (''MAIL FROM:<a@x>'' @ CRLF @ ''EHLO h'' @ CRLF @ ''MAIL FROM:<b@y>'' @ CRLF) []))))
     = Some () \<and>
   events (snd (serve (plain_srv None None)
       (newSession (''MAIL FROM:<a@x>'' @ CRLF @ ''EHLO h'' @ CRLF @ ''MAIL FROM:<b@y>'' @ CRLF) []))) =
     [Sent (''220 mx ESMTP gosmtpd'' @ CRLF),
      Cmd (''MAIL FROM:<a@x>'' @ CRLF), CallNewMail ''a@x'' None True None,
      Sent (''250 2.1.0 Ok'' @ CRLF),
      Cmd (''EHLO h'' @ CRLF),
      Sent (''250-mx'' @ CRLF), Sent (''250-PIPELINING'' @ CRLF),
      Sent (''250-ENHANCEDSTATUSCODES'' @ CRLF), Sent (''250-8BITMIME'' @ CRLF),
      Sent (''250 DSN'' @ CRLF),
      Cmd (''MAIL FROM:<b@y>'' @ CRLF),
      Sent (''503 5.5.1 Error: nested MAIL command'' @ CRLF)]"
  by code_simp

section \<open>MAIL FROM and its SIZE parameter\<close>

lemma mailSizeRE_digits: "mailSizeRE p = Some ds \<Longrightarrow> ds \<noteq> [] \<and> list_all isDigit ds"
proof (induction p)
  case Nil
  then show ?case by simp
next
  case (Cons c cs)
  show ?case
  proof (cases "ToUpper (take 5 (c # cs)) = ''SIZE='' \<and> takeWhile isDigit (drop 5 (c # cs)) \<noteq> []")
    case True
    with Cons.prems have "ds = takeWhile isDigit (drop 5 (c # cs))"
      by (simp add: Let_def del: take_Cons_numeral drop_Cons_numeral)
    with True show ?thesis
      by (auto simp: list_all_iff dest: set_takeWhileD)
  next
    case False
    with Cons.prems have "mailSizeRE cs = Some ds"
      by (simp add: Let_def del: take_Cons_numeral drop_Cons_numeral)
    then show ?thesis by (rule Cons.IH)
  qed
qed

lemma digitVal_nonneg: "isDigit c \<Longrightarrow> 0 \<le> digitVal c"
  by (simp add: isDigit_def digitVal_def Let_def)

lemma foldl_digits_nonneg:
  "list_all isDigit ds \<Longrightarrow> 0 \<le> n \<Longrightarrow> 0 \<le> foldl (\<lambda>n c. n * 10 + digitVal c) n ds"
proof (induction ds arbitrary: n)
  case Nil
  then show ?case by simp
next
  case (Cons d ds)
  from Cons.prems have "0 \<le> n * 10 + digitVal d"
    using digitVal_nonneg [of d] by simp
  with Cons show ?case by simp
qed

lemma isDigit_not_sign: "isDigit c \<Longrightarrow> c \<noteq> CHR ''-'' \<and> c \<noteq> CHR ''+''"
  by (auto simp: isDigit_def)

text \<open>On a string of digits \<open>Atoi\<close> fails exactly when the number is too large for an \<^verbatim>\<open>int\<close>.\<close>

lemma Atoi_digits:
  assumes "ds \<noteq> []" and "list_all isDigit ds"
  shows "Atoi ds = (if digitsVal ds \<le> 2 ^ 63 - 1 then Some (digitsVal ds) else None)"
proof -
  from assms have "isDigit (hd ds)" by (cases ds) simp_all
  then have sign: "hd ds \<noteq> CHR ''-''" "hd ds \<noteq> CHR ''+''"
    using isDigit_not_sign by blast+
  from assms(2) have "0 \<le> digitsVal ds"
    unfolding digitsVal_def by (rule foldl_digits_nonneg) simp
  then have "- (2 ^ 63) \<le> digitsVal ds" by (simp add: order_trans [where y = 0])
  with assms sign show ?thesis
    by (simp add: Atoi_def intSize_def Let_def)
qed

text \<open>
  C4 (as amended). For a valid MAIL line whose argument has the shape
  \<^verbatim>\<open>FROM:<addr>params\<close>: when the first \<^verbatim>\<open>SIZE=<digits>\<close> in \<open>params\<close> (letters in
  either case, at least one digit) is a number beyond the range of an \<^verbatim>\<open>int\<close>, the
  server replies \<^verbatim>\<open>501 5.5.4 ...\<close> and does nothing else, so \<^verbatim>\<open>OnNewMail\<close> is not called;
  when \<open>params\<close> has no \<^verbatim>\<open>SIZE=\<close> followed by a digit, the command goes on to
  \<^verbatim>\<open>handleMailFrom\<close> without a size, as if no SIZE had been given.
\<close>

theorem mail_size_parameter:
  assumes "checkValid sl = Inr None" and "Verb sl = Inr ''MAIL''" and "Arg sl = Inr arg"
    and "mailFromRE arg = Some (addr, params)" and "\<not> closed s"
  shows "(mailSizeRE params = Some digits \<and> 2 ^ 63 \<le> digitsVal digits \<longrightarrow>
            serve_step srv sl s =
              (Continue,
               s\<lparr>events := events s @
                  [Cmd sl,
                   Sent (''501 5.5.4 Syntax error in parameters or arguments (invalid SIZE parameter)'' @ CRLF)]\<rparr>))
         \<and> (mailSizeRE params = None \<longrightarrow>
              serve_step srv sl s = handleMailFrom srv addr None (s\<lparr>events := events s @ [Cmd sl]\<rparr>))"
proof (intro conjI impI)
  assume a: "mailSizeRE params = Some digits \<and> 2 ^ 63 \<le> digitsVal digits"
  then have ne: "params \<noteq> []" by auto
  from a mailSizeRE_digits [of params digits] have "Atoi digits = None"
    by (simp add: Atoi_digits)
  with a ne assms show "serve_step srv sl s =
      (Continue,
       s\<lparr>events := events s @
          [Cmd sl,
           Sent (''501 5.5.4 Syntax error in parameters or arguments (invalid SIZE parameter)'' @ CRLF)]\<rparr>)"
    by (simp add: serve_step_def sendlinef_open)
next
  assume "mailSizeRE params = None"
  with assms show "serve_step srv sl s = handleMailFrom srv addr None (s\<lparr>events := events s @ [Cmd sl]\<rparr>)"
    by (cases "params = []") (simp_all add: serve_step_def Let_def)
qed

theorem mail_size_parameter_witness:
  "serve_step (plain_srv None None) (''MAIL FROM:<a@x> SIZE=99999999999999999999'' @ CRLF) (newSession [] []) =
     (Continue,
      (newSession [] [])\<lparr>events :=
         [Cmd (''MAIL FROM:<a@x> SIZE=99999999999999999999'' @ CRLF),
          Sent (''501 5.5.4 Syntax error in parameters or arguments (invalid SIZE parameter)'' @ CRLF)]\<rparr>)
   \<and> serve_step (plain_srv None None) (''MAIL FROM:<a@x>'' @ CRLF) (newSession [] []) =
       handleMailFrom (plain_srv None None) ''a@x'' None
         ((newSession [] [])\<lparr>events := [Cmd (''MAIL FROM:<a@x>'' @ CRLF)]\<rparr>)"
proof -
  have c: "\<not> closed (newSession [] ([] :: string list))" by (simp add: newSession_def)
  have a1: "checkValid (''MAIL FROM:<a@x> SIZE=99999999999999999999'' @ CRLF) = Inr None" by code_simp
  have a2: "Verb (''MAIL FROM:<a@x> SIZE=99999999999999999999'' @ CRLF) = Inr ''MAIL''" by code_simp
  have a3: "Arg (''MAIL FROM:<a@x> SIZE=99999999999999999999'' @ CRLF)
              = Inr ''FROM:<a@x> SIZE=99999999999999999999''" by code_simp
  have a4: "mailFromRE ''FROM:<a@x> SIZE=99999999999999999999'' = Some (''a@x'', '' SIZE=99999999999999999999'')"
    by code_simp
  have a5: "mailSizeRE '' SIZE=99999999999999999999'' = Some ''99999999999999999999''" by code_simp
  have a6: "(2 :: int) ^ 63 \<le> digitsVal ''99999999999999999999''" by code_simp
  have b1: "checkValid (''MAIL FROM:<a@x>'' @ CRLF) = Inr None" by code_simp
  have b2: "Verb (''MAIL FROM:<a@x>'' @ CRLF) = Inr ''MAIL''" by code_simp
  have b3: "Arg (''MAIL FROM:<a@x>'' @ CRLF) = Inr ''FROM:<a@x>''" by code_simp
  have b4: "mailFromRE ''FROM:<a@x>'' = Some (''a@x'', [])" by code_simp
  have b5: "mailSizeRE [] = None" by simp
  from mail_size_parameter [OF a1 a2 a3 a4 c, of "''99999999999999999999''" "plain_srv None None"] a5 a6
  have one: "serve_step (plain_srv None None) (''MAIL FROM:<a@x> SIZE=99999999999999999999'' @ CRLF) (newSession [] []) =
     (Continue,
      (newSession [] [])\<lparr>events :=
         [Cmd (''MAIL FROM:<a@x> SIZE=99999999999999999999'' @ CRLF),
          Sent (''501 5.5.4 Syntax error in parameters or arguments (invalid SIZE parameter)'' @ CRLF)]\<rparr>)"
    by (simp add: newSession_def)
  from mail_size_parameter [OF b1 b2 b3 b4 c, of undefined "plain_srv None None"] b5
  have two: "serve_step (plain_srv None None) (''MAIL FROM:<a@x>'' @ CRLF) (newSession [] []) =
       handleMailFrom (plain_srv None None) ''a@x'' None
         ((newSession [] [])\<lparr>events := [Cmd (''MAIL FROM:<a@x>'' @ CRLF)]\<rparr>)"
    by (simp add: newSession_def)
  from one two show ?thesis by (rule conjI)
qed

text \<open>
  C4 (as stated) fails: \<^verbatim>\<open>SIZE=xyz\<close> is not an integer, yet the reply is not
  \<^verbatim>\<open>501 5.5.4\<close>: the expression \<^verbatim>\<open>mailSizeRE\<close> asks for digits after \<^verbatim>\<open>SIZE=\<close>, so
  it does not match, \<^verbatim>\<open>OnNewMail\<close> is called without a size and the command is accepted.
\<close>

theorem mail_size_not_integer_counterexample:
  "mailSizeRE '' SIZE=xyz'' = None \<and>
   events (snd (serve_step (plain_srv None None) (''MAIL FROM:<a@x> SIZE=xyz'' @ CRLF) (newSession [] []))) =
     [Cmd (''MAIL FROM:<a@x> SIZE=xyz'' @ CRLF),
      CallNewMail ''a@x'' None True None,
      Sent (''250 2.1.0 Ok'' @ CRLF)]"
  by code_simp

section \<open>The DATA phase\<close>


lemma ReadSlice_ok:
  assumes "ReadSlice inp = ((sl, None), rest)"
  shows "sl \<noteq> [] \<and> last sl = LF \<and> inp = sl @ rest"
proof -
  from assms obtain i where i: "IndexByte (take defaultBufSize inp) LF = Some i"
    and sl: "sl = take (i + 1) inp" and rest: "rest = drop (i + 1) inp"
    by (auto simp: ReadSlice_def split: option.splits if_splits)
  from IndexByte_Some_less [OF i] have lt: "i < length inp" "i < defaultBufSize" by simp_all
  from IndexByte_nth [OF i] lt have "inp ! i = LF" by simp
  moreover from lt have "last (take (i + 1) inp) = inp ! i"
    by (simp add: take_Suc_conv_app_nth)
  moreover from lt have "take (i + 1) inp \<noteq> []" by auto
  ultimately show ?thesis by (simp add: sl rest)
qed



lemma dataLoop_no_panic: "fst (dataLoop e s) \<noteq> IndexPanic"
proof (induction "length (br s)" arbitrary: s rule: less_induct)
  case less
  obtain sl err rest where r: "ReadSlice (br s) = ((sl, err), rest)"
    by (metis prod.exhaust)
  show ?case
  proof (cases err)
    case (Some er)
    with r show ?thesis by (simp add: dataLoop_ReadFailed)
  next
    case None
    with r have lt: "length rest < length (br s)" by (simp add: ReadSlice_shorter)
    from r None ReadSlice_ok [of "br s" sl rest] have ne: "sl \<noteq> []" by simp
    obtain werr w where w: "Write e (if hd sl = CHR ''.'' then tl sl else sl) (world s) = (werr, w)"
      by (metis prod.exhaust)
    show ?thesis
    proof (cases "sl = CHR ''.'' # CRLF")
      case True
      with r None show ?thesis by (simp add: dataLoop_EndOfData)
    next
      case False
      show ?thesis
      proof (cases werr)
        case (Some er)
        with r None False ne w show ?thesis by (simp add: dataLoop_WriteFailed)
      next
        case wNone: None
        let ?s1 = "s\<lparr>br := rest, world := w,
                     events := events s @ [CallWrite (if hd sl = CHR ''.'' then tl sl else sl) None]\<rparr>"
        from r None False ne w wNone have "dataLoop e s = dataLoop e ?s1"
          by (simp add: dataLoop_next)
        moreover from lt have "fst (dataLoop e ?s1) \<noteq> IndexPanic"
          by (intro less) simp
        ultimately show ?thesis by simp
      qed
    qed
  qed
qed

lemma handleData_no_panic: "fst (handleData s) \<noteq> Panicked IndexRange"
proof (cases "env s")
  case None
  then show ?thesis by (simp add: handleData_def)
next
  case (Some e)
  obtain err w where b: "BeginData e (world s) = (err, w)" by (metis prod.exhaust)
  show ?thesis
  proof (cases err)
    case (Some er)
    with \<open>env s = Some e\<close> b show ?thesis by (simp add: handleData_def)
  next
    case None
    obtain x s2 where d:
      "dataLoop e (sendlinef ''354 Go ahead'' (s\<lparr>world := w, events := events s @ [CallBeginData None]\<rparr>))
         = (x, s2)"
      by (metis prod.exhaust)
    obtain cerr w' where c: "Close e (world s2) = (cerr, w')" by (metis prod.exhaust)
    from dataLoop_no_panic [of e "sendlinef ''354 Go ahead'' (s\<lparr>world := w, events := events s @ [CallBeginData None]\<rparr>)"] d
    have "x \<noteq> IndexPanic" by simp
    with \<open>env s = Some e\<close> b None d c show ?thesis
      by (cases x; cases cerr) (simp_all add: handleData_def)
  qed
qed

text \<open>
  C10. The test of the first byte in the loop of \<^verbatim>\<open>handleData\<close> never meets an empty
  line: a line that \<open>ReadSlice\<close> returns without error ends in \<open>\n\<close> and so is not
  empty, and neither the loop nor \<^verbatim>\<open>handleData\<close> ends in the index panic.
\<close>

theorem data_line_never_empty:
  "(ReadSlice inp = ((sl, None), rest) \<longrightarrow> sl \<noteq> [] \<and> last sl = LF)
   \<and> fst (dataLoop e s) \<noteq> IndexPanic
   \<and> fst (handleData s) \<noteq> Panicked IndexRange"
  using ReadSlice_ok [of inp sl rest] dataLoop_no_panic [of e s] handleData_no_panic [of s]
  by simp

theorem data_line_never_empty_witness:
  "ReadSlice (''..foo'' @ CRLF @ ''.'' @ CRLF) = ((''..foo'' @ CRLF, None), ''.'' @ CRLF)
   \<and> ''..foo'' @ CRLF \<noteq> [] \<and> last (''..foo'' @ CRLF) = LF
   \<and> fst (dataLoop (plain_env None None) (newSession (''..foo'' @ CRLF @ ''.'' @ CRLF) [])) \<noteq> IndexPanic
   \<and> fst (handleData ((newSession (''..foo'' @ CRLF @ ''.'' @ CRLF) [])\<lparr>env := Some (plain_env None None)\<rparr>))
       \<noteq> Panicked IndexRange"
proof -
  have r: "ReadSlice (''..foo'' @ CRLF @ ''.'' @ CRLF) = ((''..foo'' @ CRLF, None), ''.'' @ CRLF)"
    by code_simp
  show ?thesis
    using r data_line_never_empty [of "''..foo'' @ CRLF @ ''.'' @ CRLF" "''..foo'' @ CRLF" "''.'' @ CRLF"
        "plain_env None None" "(newSession (''..foo'' @ CRLF @ ''.'' @ CRLF) [])\<lparr>env := Some (plain_env None None)\<rparr>"]
      data_line_never_empty [of "''..foo'' @ CRLF @ ''.'' @ CRLF" "''..foo'' @ CRLF" "''.'' @ CRLF"
        "plain_env None None" "newSession (''..foo'' @ CRLF @ ''.'' @ CRLF) []"]
    by simp
qed





section \<open>Replies to DATA when the envelope fails with a plain error\<close>

text \<open>
  C5 does not hold of the code. With an envelope whose \<^verbatim>\<open>BeginData\<close> returns a plain
  error (not an \<^verbatim>\<open>SMTPError\<close>), DATA is followed by no reply at all: \<^verbatim>\<open>handleError\<close>
  only logs and drops the envelope, and the loop reads the next command. The same
  happens at the end of the data when \<^verbatim>\<open>Close\<close> returns a plain error: after
  \<^verbatim>\<open>354 Go ahead\<close> no terminal status line is sent.
\<close>

theorem data_plain_error_no_reply:
  "events (snd (serve (plain_srv (Some (errorString ''disk full'')) None)
       (newSession (''MAIL FROM:<a@x>'' @ CRLF @ ''DATA'' @ CRLF @ ''NOOP'' @ CRLF) []))) =
     [Sent (''220 mx ESMTP gosmtpd'' @ CRLF),
      Cmd (''MAIL FROM:<a@x>'' @ CRLF), CallNewMail ''a@x'' None True None,
      Sent (''250 2.1.0 Ok'' @ CRLF),
      Cmd (''DATA'' @ CRLF), CallBeginData (Some (errorString ''disk full'')),
      Cmd (''NOOP'' @ CRLF), Sent (''250 2.0.0 OK'' @ CRLF)]
   \<and> events (snd (serve (plain_srv None (Some (errorString ''disk full'')))
       (newSession (''MAIL FROM:<a@x>'' @ CRLF @ ''DATA'' @ CRLF @ ''hello'' @ CRLF @ ''.'' @ CRLF
                    @ ''NOOP'' @ CRLF) []))) =
     [Sent (''220 mx ESMTP gosmtpd'' @ CRLF),
      Cmd (''MAIL FROM:<a@x>'' @ CRLF), CallNewMail ''a@x'' None True None,
      Sent (''250 2.1.0 Ok'' @ CRLF),
      Cmd (''DATA'' @ CRLF), CallBeginData None, Sent (''354 Go ahead'' @ CRLF),
      CallWrite (''hello'' @ CRLF) None, CallClose (Some (errorString ''disk full'')),
      Cmd (''NOOP'' @ CRLF), Sent (''250 2.0.0 OK'' @ CRLF)]"
  by code_simp

section \<open>The envelope invariant\<close>

text \<open>
  Whether the session holds an envelope, read off the history. \<open>envAfter live ev\<close> tells
  whether an envelope is current after the event \<open>ev\<close> when \<open>live\<close> tells it for the
  history before: a call of \<^verbatim>\<open>OnNewMail\<close> leaves one exactly when it returned a non-nil
  envelope and no error; an RSET command, a \<^verbatim>\<open>BeginData\<close> that returned a plain error,
  and a \<^verbatim>\<open>Close\<close> that returned nil or a plain error leave none; every other event
  changes nothing.
\<close>

definition isRSET :: "string \<Rightarrow> bool" where
  "isRSET sl = (checkValid sl = Inr None \<and> Verb sl = Inr ''RSET'')"


fun envAfter :: "bool \<Rightarrow> event \<Rightarrow> bool" where
  "envAfter live (CallNewMail a z got err) = (got \<and> err = None)"
| "envAfter live (CallBeginData (Some (errorString m))) = False"
| "envAfter live (CallClose None) = False"
| "envAfter live (CallClose (Some (errorString m))) = False"
| "envAfter live (Cmd sl) = (if isRSET sl then False else live)"
| "envAfter live ev = live"

definition envLive :: "event list \<Rightarrow> bool" where
  "envLive evs = foldl envAfter False evs"




lemma envLive_snoc [simp]: "envLive (evs @ [ev]) = envAfter (envLive evs) ev"
  by (simp add: envLive_def)

lemma envLive_Nil [simp]: "envLive [] = False"
  by (simp add: envLive_def)

lemma envLive_single [simp]: "envLive [ev] = envAfter False ev"
  by (simp add: envLive_def)

lemma envLive_sendf [simp]: "envLive (events (sendf str s)) = envLive (events s)"
  by (simp add: sendf_def)

lemma envLive_sendlinef [simp]: "envLive (events (sendlinef str s)) = envLive (events s)"
  by (simp add: sendlinef_def)

lemma envLive_sendSMTPErrorOrLinef [simp]:
  "envLive (events (sendSMTPErrorOrLinef e str s)) = envLive (events s)"
  by (cases e) simp_all

lemma envLive_handleHello [simp]: "envLive (events (handleHello srv g h s)) = envLive (events s)"
proof -
  have "envLive (events (foldl (\<lambda>t ext. sendf (ext @ CRLF) t) t xs)) = envLive (events t)"
    for xs and t :: "'a session"
    by (induction xs arbitrary: t) simp_all
  then show ?thesis by (simp add: handleHello_def)
qed


lemma handleError_inv:
  "(env s \<noteq> None) = live \<Longrightarrow>
   (env (handleError er s) \<noteq> None) = (case er of SMTPError m \<Rightarrow> live | errorString m \<Rightarrow> False)
   \<and> envLive (events (handleError er s)) = envLive (events s)"
  by (cases er) simp_all












end
